theory Spec2Isabelle
  imports Main
begin

section \<open>JavaScript strings and values\<close>

text \<open>
  A JavaScript string is modelled as a \<^typ>\<open>string\<close>: a list of 8-bit characters, read as
  the code units U+0000 .. U+00FF (Latin-1).  \<open>length\<close> is then the \<open>.length\<close> of the
  JavaScript string.  Strings with code units above U+00FF are outside the model.
  A value that may be \<open>null\<close> or \<open>undefined\<close> is an \<open>option\<close>.
\<close>

text \<open>The white space removed by \<open>String.prototype.trim\<close>, below U+0100:
  TAB, LF, VT, FF, CR, SPACE and NO-BREAK SPACE.\<close>

definition isWhiteSpace :: "char \<Rightarrow> bool" where
  "isWhiteSpace c \<longleftrightarrow>
     c \<in> set [CHR 0x09, CHR 0x0A, CHR 0x0B, CHR 0x0C, CHR 0x0D, CHR 0x20, CHR 0xA0]"

text \<open>The characters that \<open>.\<close> of a regular expression does not match, below U+0100.\<close>

definition isLineTerminator :: "char \<Rightarrow> bool" where
  "isLineTerminator c \<longleftrightarrow> c = CHR 0x0A \<or> c = CHR 0x0D"

definition trim :: "string \<Rightarrow> string" where
  "trim s = rev (dropWhile isWhiteSpace (rev (dropWhile isWhiteSpace s)))"

text \<open>\<open>toLowerCase\<close> on Latin-1: A-Z and the accented capitals U+00C0 .. U+00DE
  (without the multiplication sign U+00D7) move up by 32.\<close>

definition toLowerCase_char :: "char \<Rightarrow> char" where
  "toLowerCase_char c =
     (let n = (of_char c :: nat)
      in if (65 \<le> n \<and> n \<le> 90) \<or> (192 \<le> n \<and> n \<le> 222 \<and> n \<noteq> 215)
         then char_of (n + 32) else c)"

definition toLowerCase :: "string \<Rightarrow> string" where
  "toLowerCase s = map toLowerCase_char s"

text \<open>\<open>s.substring(a, b)\<close>: the arguments are swapped when \<open>a > b\<close> and clamped to the
  length of \<open>s\<close>.\<close>

definition substring :: "nat \<Rightarrow> nat \<Rightarrow> string \<Rightarrow> string" where
  "substring a b s = take (max a b - min a b) (drop (min a b) s)"

text \<open>\<open>s.split(sep)\<close> for a one-character separator: the empty string gives \<open>['']\<close>.\<close>

fun js_split :: "char \<Rightarrow> string \<Rightarrow> string list" where
  "js_split sep [] = ['''']"
| "js_split sep (c # cs) =
     (if c = sep then [] # js_split sep cs
      else (case js_split sep cs of
              [] \<Rightarrow> [c # '''']
            | p # ps \<Rightarrow> (c # p) # ps))"

text \<open>\<open>xs.join(sep)\<close>.\<close>

fun js_join :: "string \<Rightarrow> string list \<Rightarrow> string" where
  "js_join sep [] = []"
| "js_join sep [x] = x"
| "js_join sep (x # y # ys) = x @ sep @ js_join sep (y # ys)"

definition starts_with :: "string \<Rightarrow> string \<Rightarrow> bool" where
  "starts_with p s \<longleftrightarrow> take (length p) s = p"

text \<open>\<open>s.includes(m)\<close>: the marker \<open>m\<close> occurs somewhere in \<open>s\<close>.\<close>

fun js_includes :: "string \<Rightarrow> string \<Rightarrow> bool" where
  "js_includes m [] = (m = [])"
| "js_includes m (c # cs) = (starts_with m (c # cs) \<or> js_includes m cs)"

text \<open>Truthiness of a string-or-null value: \<open>null\<close>, \<open>undefined\<close> and \<open>''\<close> are falsy.\<close>

fun js_truthy :: "string option \<Rightarrow> bool" where
  "js_truthy None = False"
| "js_truthy (Some s) = (s \<noteq> [])"

text \<open>A string-or-null value inside a template literal.\<close>

fun template_str :: "string option \<Rightarrow> string" where
  "template_str None = ''null''"
| "template_str (Some s) = s"

section \<open>The three regular expressions of \<open>processWithAI\<close>\<close>

text \<open>
  \<open>text.match(/MARKER(.+)/)\<close> for a literal \<open>MARKER\<close>: the leftmost position where the
  marker is followed by at least one character that is not a line terminator; the group is
  the longest run of such characters.  The result is the capture group 1, \<open>None\<close> when
  \<open>match\<close> returns \<open>null\<close>.  Used for \<open>/TITLE: (.+)/\<close> and \<open>/TAGS: (.+)/\<close>.
\<close>

fun match_line :: "string \<Rightarrow> string \<Rightarrow> string option" where
  "match_line marker [] = None"
| "match_line marker (c # cs) =
     (if starts_with marker (c # cs)
      then (case takeWhile (\<lambda>x. \<not> isLineTerminator x) (drop (length marker) (c # cs)) of
              [] \<Rightarrow> match_line marker cs
            | g # gs \<Rightarrow> Some (g # gs))
      else match_line marker cs)"

text \<open>
  The group of \<open>([\s\S]+?)(?=TAGS:|$)\<close>: at least one character, then as few as possible
  until the rest starts with \<open>TAGS:\<close> or is empty.
\<close>

fun lazy_until_TAGS :: "string \<Rightarrow> string" where
  "lazy_until_TAGS [] = []"
| "lazy_until_TAGS (c # cs) =
     c # (if cs = [] \<or> starts_with ''TAGS:'' cs then [] else lazy_until_TAGS cs)"

text \<open>\<open>text.match(/SUMMARY: ([\s\S]+?)(?=TAGS:|$)/)\<close>, capture group 1.\<close>

fun match_SUMMARY :: "string \<Rightarrow> string option" where
  "match_SUMMARY [] = None"
| "match_SUMMARY (c # cs) =
     (if starts_with ''SUMMARY: '' (c # cs)
      then (case drop 9 (c # cs) of
              [] \<Rightarrow> match_SUMMARY cs
            | r # rs \<Rightarrow> Some (lazy_until_TAGS (r # rs)))
      else match_SUMMARY cs)"

section \<open>Articles and rewritten articles\<close>

text \<open>An article of the news source.  \<open>url\<close> is always a string; the other fields may
  be \<open>null\<close>.\<close>

record article =
  a_title :: "string option"
  a_description :: "string option"
  a_content :: "string option"
  a_url :: string
  a_urlToImage :: "string option"
  a_publishedAt :: "string option"

text \<open>The object returned by \<open>processWithAI\<close>.  \<open>new Date(x)\<close> is represented by its
  argument \<open>x\<close>.\<close>

record processedArticle =
  pa_title :: string
  pa_content :: string
  pa_tags :: "string list"
  pa_image :: "string option"
  pa_originalUrl :: string
  pa_publishedAt :: "string option"

text \<open>Lines 154-172 of \<open>newsService.js\<close>: parsing the model's response.\<close>

definition parse_response :: "article \<Rightarrow> string \<Rightarrow> processedArticle option" where
  "parse_response a text =
     (let titleMatch = match_line ''TITLE: '' text;
          summaryMatch = match_SUMMARY text;
          tagsMatch = match_line ''TAGS: '' text
      in case titleMatch of
           None \<Rightarrow> None
         | Some t \<Rightarrow>
             (case summaryMatch of
                None \<Rightarrow> None
              | Some sm \<Rightarrow>
                  Some \<lparr> pa_title = substring 0 200 (trim t),
                         pa_content = trim sm,
                         pa_tags = (case tagsMatch of
                                      Some tg \<Rightarrow> map (\<lambda>tag. toLowerCase (trim tag))
                                                     (js_split CHR '','' tg)
                                    | None \<Rightarrow> []),
                         pa_image = a_urlToImage a,
                         pa_originalUrl = a_url a,
                         pa_publishedAt = a_publishedAt a \<rparr>))"

section \<open>The prompts\<close>

text \<open>The template literal of \<open>processWithAI\<close> (lines 124-147).\<close>

definition rewrite_prompt :: "article \<Rightarrow> string \<Rightarrow> string" where
  "rewrite_prompt a categoryName =
     ''\<newline>'' @
     ''You are an AI news editor for Intelixir, a social news platform. '' @
     ''Your task is to rewrite and summarize news articles to make them unique, '' @
     ''engaging, and platform-appropriate.\<newline>'' @
     ''\<newline>'' @
     ''Original Article:\<newline>'' @
     ''Title: '' @ template_str (a_title a) @ ''\<newline>'' @
     ''Description: '' @ template_str (a_description a) @ ''\<newline>'' @
     ''Content: '' @ template_str (if js_truthy (a_content a) then a_content a
                                  else a_description a) @ ''\<newline>'' @
     ''Category: '' @ categoryName @ ''\<newline>'' @
     ''\<newline>'' @
     ''Please provide:\<newline>'' @
     ''1. A new, engaging title (max 100 characters) that captures the essence '' @
     ''but uses different wording\<newline>'' @
     ''2. A concise, well-written summary (200-400 words) that:\<newline>'' @
     ''   - Covers the key points\<newline>'' @
     ''   - Is completely rewritten in your own words\<newline>'' @
     ''   - Is engaging and informative\<newline>'' @
     ''   - Avoids direct copying\<newline>'' @
     ''   - Maintains factual accuracy\<newline>'' @
     ''3. 3-5 relevant tags (single words, comma-separated)\<newline>'' @
     ''\<newline>'' @
     ''Format your response exactly like this:\<newline>'' @
     ''TITLE: [Your new title here]\<newline>'' @
     ''SUMMARY: [Your summary here]\<newline>'' @
     ''TAGS: [tag1, tag2, tag3, tag4, tag5]\<newline>''"

text \<open>The template literal of \<open>generateTags\<close> (lines 293-299).\<close>

definition tags_prompt :: "string \<Rightarrow> string" where
  "tags_prompt content =
     ''\<newline>'' @
     ''Generate 3-5 relevant tags for the following content. '' @
     ''Tags should be single words, lowercase, and comma-separated.\<newline>'' @
     ''\<newline>'' @
     ''Content: '' @ content @ ''\<newline>'' @
     ''\<newline>'' @
     ''Respond with just the tags, comma-separated.\<newline>''"

section \<open>The documents of \<open>models/index.js\<close>\<close>

record user =
  u_id :: nat
  u_name :: string
  u_role :: string

record category =
  c_id :: nat
  c_name :: string

datatype post_type = TypeText | TypeImage | TypeLink | TypeNews

record link =
  l_url :: string
  l_title :: "string option"
  l_description :: "string option"
  l_image :: "string option"

text \<open>
  A Post document.  \<open>likes\<close> holds the liking users and \<open>comments\<close> the commenting users
  with their texts.  Left out, with the timestamps and \<open>reportedBy\<close>, are the numbers
  \<open>shares\<close>, \<open>views\<close> and \<open>engagement\<close>: the hook \<open>postSchema.pre('save')\<close> (lines
  261-270) assigns \<open>engagement\<close> and nothing else, computing it from them in
  double-precision floating-point arithmetic, which this model does not cover.
\<close>

record post =
  p_title :: "string option"
  p_content :: string
  p_author :: nat
  p_type :: post_type
  p_image :: "string option"
  p_link :: "link option"
  p_categories :: "nat list"
  p_tags :: "string list"
  p_isNews :: bool
  p_originalSource :: "string option"
  p_publishedAt :: "string option"
  p_likes :: "nat list option"
  p_comments :: "(nat \<times> string) list option"
  p_isActive :: bool

section \<open>Errors, external calls and the state\<close>

datatype js_error = Error string | ValidationError string

text \<open>The validators that \<open>postSchema\<close> declares for the fields the pipeline sets:
  \<open>title\<close> has \<open>maxlength\<close> 200, \<open>content\<close> is required (a non-empty string) and has
  \<open>maxlength\<close> 5000.\<close>

definition validate_post :: "post \<Rightarrow> js_error option" where
  "validate_post p =
     (if (case p_title p of Some t \<Rightarrow> 200 < length t | None \<Rightarrow> False)
        then Some (ValidationError ''Title cannot exceed 200 characters'')
      else if p_content p = [] then Some (ValidationError ''Content is required'')
      else if 5000 < length (p_content p)
        then Some (ValidationError ''Content cannot exceed 5000 characters'')
      else None)"

text \<open>Every call of a collaborator (database, news source, model) and every pause is
  logged, in order.\<close>

datatype event =
    UserFindOne
  | CategoryFindOne string
  | NewsApiEverything string
  | PostFindOne string
  | GenerateContent string
  | PostSave post
  | Delay nat

text \<open>
  The collaborators.  Each answer may depend on the number of calls made before it (the
  length of the log), so that any sequence of answers of one run is covered.
  \<^item> \<open>db_error n\<close>: the error with which the database operation made as call \<open>n\<close> rejects,
    if it does (connection loss, cast failure and the like);
  \<^item> \<open>newsApi_everything n q\<close>: the answer of \<open>newsApi.v2.everything\<close> to the query \<open>q\<close>;
    \<open>articles\<close> may be missing from the response;
  \<^item> \<open>generateContent n prompt\<close>: the text of the model's response, or the error thrown by
    \<open>generateContent\<close> or by \<open>response.text()\<close>.
\<close>

record response =
  r_articles :: "article list option"

record env =
  db_error :: "nat \<Rightarrow> js_error option"
  newsApi_everything :: "nat \<Rightarrow> string \<Rightarrow> js_error + response"
  generateContent :: "nat \<Rightarrow> string \<Rightarrow> js_error + string"

record processedCount =
  success :: nat
  failed :: nat

text \<open>The state: the three collections, the log of calls and the \<open>processedCount\<close>
  object of the running invocation.\<close>

record state =
  users :: "user list"
  categories :: "category list"
  posts :: "post list"
  trace :: "event list"
  count :: processedCount

definition log_event :: "event \<Rightarrow> state \<Rightarrow> state" where
  "log_event ev s = s\<lparr>trace := trace s @ [ev]\<rparr>"

definition inc_success :: "state \<Rightarrow> state" where
  "inc_success s = s\<lparr>count := (count s)\<lparr>success := success (count s) + 1\<rparr>\<rparr>"

definition inc_failed :: "state \<Rightarrow> state" where
  "inc_failed s = s\<lparr>count := (count s)\<lparr>failed := failed (count s) + 1\<rparr>\<rparr>"

text \<open>\<open>User.findOne({ role: 'admin' })\<close>\<close>

definition User_findOne :: "env \<Rightarrow> state \<Rightarrow> (js_error + user option) \<times> state" where
  "User_findOne env s =
     (case db_error env (length (trace s)) of
        Some e \<Rightarrow> (Inl e, log_event UserFindOne s)
      | None \<Rightarrow> (Inr (find (\<lambda>u. u_role u = ''admin'') (users s)), log_event UserFindOne s))"

text \<open>\<open>Category.findOne({ name })\<close>\<close>

definition Category_findOne ::
  "env \<Rightarrow> string \<Rightarrow> state \<Rightarrow> (js_error + category option) \<times> state" where
  "Category_findOne env name s =
     (case db_error env (length (trace s)) of
        Some e \<Rightarrow> (Inl e, log_event (CategoryFindOne name) s)
      | None \<Rightarrow> (Inr (find (\<lambda>c. c_name c = name) (categories s)),
                 log_event (CategoryFindOne name) s))"

text \<open>\<open>Post.findOne({ originalSource: url, isNews: true })\<close>\<close>

definition Post_findOne ::
  "env \<Rightarrow> string \<Rightarrow> state \<Rightarrow> (js_error + post option) \<times> state" where
  "Post_findOne env url s =
     (case db_error env (length (trace s)) of
        Some e \<Rightarrow> (Inl e, log_event (PostFindOne url) s)
      | None \<Rightarrow> (Inr (find (\<lambda>p. p_originalSource p = Some url \<and> p_isNews p) (posts s)),
                 log_event (PostFindOne url) s))"

text \<open>\<open>post.save()\<close> of a new document: validation, then the insert.  The pre-save hook
  in between changes no field of the model.\<close>

definition save :: "env \<Rightarrow> post \<Rightarrow> state \<Rightarrow> (js_error + post) \<times> state" where
  "save env p s =
     (case validate_post p of
        Some e \<Rightarrow> (Inl e, log_event (PostSave p) s)
      | None \<Rightarrow>
          (case db_error env (length (trace s)) of
             Some e \<Rightarrow> (Inl e, log_event (PostSave p) s)
           | None \<Rightarrow> (Inr p, (log_event (PostSave p) s)\<lparr>posts := posts s @ [p]\<rparr>)))"

section \<open>The service \<open>NewsService\<close>\<close>

text \<open>The entries of \<open>this.categories\<close> (lines 11-20).\<close>

record topic =
  t_name :: string
  t_keywords :: "string list"

definition service_categories :: "topic list" where
  "service_categories =
     [\<lparr>t_name = ''Technology'',
        t_keywords = [''technology'', ''tech'', ''ai'', ''software'', ''internet'']\<rparr>,
      \<lparr>t_name = ''Politics'',
        t_keywords = [''politics'', ''government'', ''election'', ''policy'']\<rparr>,
      \<lparr>t_name = ''Business'',
        t_keywords = [''business'', ''economy'', ''finance'', ''market'', ''stock'']\<rparr>,
      \<lparr>t_name = ''Sports'',
        t_keywords = [''sports'', ''football'', ''basketball'', ''soccer'', ''olympics'']\<rparr>,
      \<lparr>t_name = ''Health'',
        t_keywords = [''health'', ''medical'', ''medicine'', ''covid'', ''vaccine'']\<rparr>,
      \<lparr>t_name = ''Science'',
        t_keywords = [''science'', ''research'', ''study'', ''discovery'', ''climate'']\<rparr>,
      \<lparr>t_name = ''Entertainment'',
        t_keywords = [''entertainment'', ''celebrity'', ''movie'', ''music'', ''tv'']\<rparr>,
      \<lparr>t_name = ''World'',
        t_keywords = [''international'', ''global'', ''world'', ''foreign'']\<rparr>]"

text \<open>\<open>processWithAI\<close> (lines 122-178).  Whatever is thrown inside is caught and
  \<open>null\<close> is returned.\<close>

definition processWithAI ::
  "env \<Rightarrow> article \<Rightarrow> string \<Rightarrow> state \<Rightarrow> (js_error + processedArticle option) \<times> state" where
  "processWithAI env a categoryName s =
     (let prompt = rewrite_prompt a categoryName
      in case generateContent env (length (trace s)) prompt of
           Inl e \<Rightarrow> (Inr None, log_event (GenerateContent prompt) s)
         | Inr text \<Rightarrow> (Inr (parse_response a text), log_event (GenerateContent prompt) s))"

text \<open>\<open>createNewsPost\<close> (lines 180-208): \<open>new Post\<close> fills the fields that are not given
  with the defaults of the schema; an error of \<open>save\<close> is thrown again.\<close>

definition createNewsPost ::
  "env \<Rightarrow> processedArticle \<Rightarrow> nat \<Rightarrow> nat \<Rightarrow> article \<Rightarrow> state \<Rightarrow> (js_error + post) \<times> state" where
  "createNewsPost env processedArticle categoryId adminUserId originalArticle s =
     (let post = \<lparr> p_title = Some (pa_title processedArticle),
                   p_content = pa_content processedArticle,
                   p_author = adminUserId,
                   p_type = (if js_truthy (pa_image processedArticle) then TypeImage
                             else TypeNews),
                   p_image = pa_image processedArticle,
                   p_link = Some \<lparr> l_url = a_url originalArticle,
                                    l_title = a_title originalArticle,
                                    l_description = a_description originalArticle,
                                    l_image = a_urlToImage originalArticle \<rparr>,
                   p_categories = [categoryId],
                   p_tags = pa_tags processedArticle,
                   p_isNews = True,
                   p_originalSource = Some (a_url originalArticle),
                   p_publishedAt = pa_publishedAt processedArticle,
                   p_likes = Some [],
                   p_comments = Some [],
                   p_isActive = True \<rparr>
      in case save env post s of
           (Inl e, s') \<Rightarrow> (Inl e, s')
         | (Inr saved, s') \<Rightarrow> (Inr saved, s'))"

text \<open>The body of the loop over \<open>response.articles\<close> (lines 80-113), with its
  \<open>try\<close>/\<open>catch\<close>: every error is counted as failed.\<close>

definition processArticle :: "env \<Rightarrow> string \<Rightarrow> nat \<Rightarrow> nat \<Rightarrow> article \<Rightarrow> state \<Rightarrow> state" where
  "processArticle env categoryName categoryId adminUserId a s =
     (case Post_findOne env (a_url a) s of
        (Inl e, s1) \<Rightarrow> inc_failed s1
      | (Inr (Some existingPost), s1) \<Rightarrow> s1
      | (Inr None, s1) \<Rightarrow>
          if \<not> js_truthy (a_title a) \<or> \<not> js_truthy (a_description a)
             \<or> a_title a = Some ''[Removed]''
          then s1
          else (case processWithAI env a categoryName s1 of
                  (Inl e, s2) \<Rightarrow> inc_failed s2
                | (Inr None, s2) \<Rightarrow> inc_failed s2
                | (Inr (Some processedArticle), s2) \<Rightarrow>
                    (case createNewsPost env processedArticle categoryId adminUserId a s2 of
                       (Inl e, s3) \<Rightarrow> inc_failed s3
                     | (Inr p, s3) \<Rightarrow> inc_success s3)))"

text \<open>The loop \<open>for (const article of response.articles)\<close>.\<close>

fun processArticles :: "env \<Rightarrow> string \<Rightarrow> nat \<Rightarrow> nat \<Rightarrow> article list \<Rightarrow> state \<Rightarrow> state" where
  "processArticles env categoryName categoryId adminUserId [] s = s"
| "processArticles env categoryName categoryId adminUserId (a # rest) s =
     processArticles env categoryName categoryId adminUserId rest
       (processArticle env categoryName categoryId adminUserId a s)"

text \<open>\<open>processCategoryNews\<close> (lines 56-120): an error of the category lookup or of the
  news source is thrown again.\<close>

definition processCategoryNews ::
  "env \<Rightarrow> topic \<Rightarrow> nat \<Rightarrow> state \<Rightarrow> (js_error + unit) \<times> state" where
  "processCategoryNews env category adminUserId s =
     (case Category_findOne env (t_name category) s of
        (Inl e, s1) \<Rightarrow> (Inl e, s1)
      | (Inr None, s1) \<Rightarrow> (Inr (), s1)
      | (Inr (Some dbCategory), s1) \<Rightarrow>
          (let q = js_join '' OR '' (t_keywords category);
               s2 = log_event (NewsApiEverything q) s1
           in case newsApi_everything env (length (trace s1)) q of
                Inl e \<Rightarrow> (Inl e, s2)
              | Inr response \<Rightarrow>
                  (case r_articles response of
                     None \<Rightarrow> (Inr (), s2)
                   | Some [] \<Rightarrow> (Inr (), s2)
                   | Some articles \<Rightarrow>
                       (Inr (), processArticles env (t_name category) (c_id dbCategory)
                                  adminUserId articles s2))))"

text \<open>The loop \<open>for (const category of this.categories)\<close> (lines 36-45).\<close>

fun forCategories :: "env \<Rightarrow> nat \<Rightarrow> topic list \<Rightarrow> state \<Rightarrow> state" where
  "forCategories env adminUserId [] s = s"
| "forCategories env adminUserId (category # rest) s =
     (case processCategoryNews env category adminUserId s of
        (Inr u, s1) \<Rightarrow> forCategories env adminUserId rest (log_event (Delay 2000) s1)
      | (Inl e, s1) \<Rightarrow> forCategories env adminUserId rest (inc_failed s1))"

text \<open>\<open>fetchAndProcessNews\<close> (lines 23-54).\<close>

definition fetchAndProcessNews :: "env \<Rightarrow> state \<Rightarrow> (js_error + processedCount) \<times> state" where
  "fetchAndProcessNews env s =
     (case User_findOne env s of
        (Inl e, s1) \<Rightarrow> (Inl e, s1)
      | (Inr None, s1) \<Rightarrow> (Inl (Error ''Admin user not found''), s1)
      | (Inr (Some adminUser), s1) \<Rightarrow>
          (let s2 = s1\<lparr>count := \<lparr>success = 0, failed = 0\<rparr>\<rparr>;
               s3 = forCategories env (u_id adminUser) service_categories s2
           in (Inr (count s3), s3)))"

text \<open>\<open>generateTags\<close> (lines 291-311).\<close>

definition generateTags :: "env \<Rightarrow> string \<Rightarrow> state \<Rightarrow> (js_error + string list) \<times> state" where
  "generateTags env content s =
     (let prompt = tags_prompt content
      in case generateContent env (length (trace s)) prompt of
           Inl e \<Rightarrow> (Inr [], log_event (GenerateContent prompt) s)
         | Inr text \<Rightarrow>
             (let tags = map (\<lambda>tag. toLowerCase (trim tag)) (js_split CHR '','' (trim text))
              in (Inr (filter (\<lambda>tag. length tag > 0 \<and> length tag \<le> 20) tags),
                  log_event (GenerateContent prompt) s)))"

section \<open>Concrete inputs\<close>

definition art_ok :: article where
  "art_ok = \<lparr> a_title = Some ''Chip maker unveils new processor'',
              a_description = Some ''A new processor was announced.'',
              a_content = None,
              a_url = ''https://news.example/a1'',
              a_urlToImage = Some ''https://news.example/a1.png'',
              a_publishedAt = Some ''2024-05-01T10:00:00Z'' \<rparr>"

text \<open>Collaborators that never fail: the source answers every query with \<open>art_ok\<close>, the
  model answers every prompt with \<open>text\<close>.\<close>

definition env_reply :: "string \<Rightarrow> env" where
  "env_reply text = \<lparr> db_error = (\<lambda>n. None),
                      newsApi_everything = (\<lambda>n q. Inr \<lparr> r_articles = Some [art_ok] \<rparr>),
                      generateContent = (\<lambda>n prompt. Inr text) \<rparr>"

text \<open>A database with an admin user and the category Technology, and no posts.\<close>

definition st_admin :: state where
  "st_admin = \<lparr> users = [\<lparr> u_id = 1, u_name = ''Admin'', u_role = ''admin'' \<rparr>],
                categories = [\<lparr> c_id = 7, c_name = ''Technology'' \<rparr>],
                posts = [],
                trace = [],
                count = \<lparr> success = 0, failed = 0 \<rparr> \<rparr>"

definition long_title_text :: string where
  "long_title_text = ''TITLE: '' @ replicate 210 CHR ''a'' @ ''\<newline>SUMMARY: s''"

definition long_title_result :: processedArticle where
  "long_title_result = \<lparr> pa_title = replicate 200 CHR ''a'',
                         pa_content = ''s'',
                         pa_tags = [],
                         pa_image = Some ''https://news.example/a1.png'',
                         pa_originalUrl = ''https://news.example/a1'',
                         pa_publishedAt = Some ''2024-05-01T10:00:00Z'' \<rparr>"

definition tags_text :: string where
  "tags_text = '' News, , AI ,averyveryverylongtagmorethantwenty ''"

definition env_model_down :: env where
  "env_model_down = \<lparr> db_error = (\<lambda>n. None),
                       newsApi_everything = (\<lambda>n q. Inr \<lparr> r_articles = Some [art_ok] \<rparr>),
                       generateContent = (\<lambda>n prompt. Inl (Error ''model unavailable'')) \<rparr>"

definition good_text :: string where
  "good_text =
     ''TITLE: New chip announced\<newline>'' @
     ''SUMMARY: A chip maker presented a processor.\<newline>'' @
     ''TAGS: Tech, ,Chips''"

definition no_tags_text :: string where
  "no_tags_text = ''TITLE: New chip announced\<newline>SUMMARY: A chip maker presented a processor.''"

definition no_summary_text :: string where
  "no_summary_text = ''TITLE: New chip announced\<newline>TAGS: tech''"

definition blank_title_text :: string where
  "blank_title_text = ''TITLE: \<newline>SUMMARY: body''"

text \<open>Collaborators whose database never fails and whose model answers \<open>good_text\<close>; the
  source answers every query with \<open>answer\<close>.\<close>

definition env_source :: "js_error + response \<Rightarrow> env" where
  "env_source answer = \<lparr> db_error = (\<lambda>n. None),
                         newsApi_everything = (\<lambda>n q. answer),
                         generateContent = (\<lambda>n prompt. Inr good_text) \<rparr>"

definition env_no_articles :: env where
  "env_no_articles = env_source (Inr \<lparr> r_articles = Some [] \<rparr>)"

definition env_source_down :: env where
  "env_source_down = env_source (Inl (Error ''rate limited''))"

text \<open>Collaborators whose database rejects every operation.\<close>

definition env_db_down :: env where
  "env_db_down = \<lparr> db_error = (\<lambda>n. Some (Error ''connection lost'')),
                    newsApi_everything = (\<lambda>n q. Inr \<lparr> r_articles = Some [art_ok] \<rparr>),
                    generateContent = (\<lambda>n prompt. Inr good_text) \<rparr>"

definition art_removed :: article where
  "art_removed = art_ok\<lparr> a_title := Some ''[Removed]'' \<rparr>"

definition art_no_image :: article where
  "art_no_image = art_ok\<lparr> a_urlToImage := None \<rparr>"

definition topic_technology :: topic where
  "topic_technology = \<lparr> t_name = ''Technology'',
                        t_keywords = [''technology'', ''tech'', ''ai'', ''software'', ''internet''] \<rparr>"

text \<open>A news post already stored for the URL of \<open>art_ok\<close>.\<close>

definition stored_post :: post where
  "stored_post = \<lparr> p_title = Some ''Processor unveiled'',
                   p_content = ''A processor was unveiled.'',
                   p_author = 1,
                   p_type = TypeImage,
                   p_image = Some ''https://news.example/a1.png'',
                   p_link = None,
                   p_categories = [7],
                   p_tags = [''tech''],
                   p_isNews = True,
                   p_originalSource = Some ''https://news.example/a1'',
                   p_publishedAt = Some ''2024-05-01T10:00:00Z'',
                   p_likes = Some [],
                   p_comments = Some [],
                   p_isActive = True \<rparr>"

definition st_dup :: state where
  "st_dup = st_admin\<lparr> posts := [stored_post] \<rparr>"

definition st_no_admin :: state where
  "st_no_admin = st_admin\<lparr> users := [\<lparr> u_id = 2, u_name = ''Reader'', u_role = ''user'' \<rparr>] \<rparr>"

section \<open>Auxiliary predicates\<close>

text \<open>A string that \<open>trim\<close> leaves as it is: empty, or with no white space at either
  end.\<close>

definition trimmed :: "string \<Rightarrow> bool" where
  "trimmed t \<longleftrightarrow> t = [] \<or> (\<not> isWhiteSpace (hd t) \<and> \<not> isWhiteSpace (last t))"

text \<open>A news post with the original source \<open>u\<close> is stored.\<close>

definition stored :: "string \<Rightarrow> state \<Rightarrow> bool" where
  "stored u s \<longleftrightarrow> (\<exists>p \<in> set (posts s). p_originalSource p = Some u \<and> p_isNews p)"

text \<open>What holds of every post that the pipeline inserts.\<close>

definition pipeline_made :: "post \<Rightarrow> bool" where
  "pipeline_made p \<longleftrightarrow>
     p_isNews p \<and> p_type p = (if js_truthy (p_image p) then TypeImage else TypeNews)"

section \<open>Properties of the string functions\<close>

lemma length_substring_le: "length (substring 0 n s) \<le> n"
  by (simp add: substring_def)

lemma char_eq_nat: "(c = d) = ((of_char c :: nat) = of_char d)"
  by simp

lemma isWhiteSpace_nat:
  "isWhiteSpace c \<longleftrightarrow> (of_char c :: nat) \<in> {9, 10, 11, 12, 13, 32, 160}"
  unfolding isWhiteSpace_def
  by (simp add: char_eq_nat [of c] del: of_char_eq_iff)

lemma toLowerCase_char_idem: "toLowerCase_char (toLowerCase_char c) = toLowerCase_char c"
proof -
  have "of_char c < (256::nat)" by simp
  then show ?thesis
    by (auto simp: toLowerCase_char_def Let_def)
qed

lemma isWhiteSpace_toLowerCase_char: "isWhiteSpace (toLowerCase_char c) = isWhiteSpace c"
proof -
  have "of_char c < (256::nat)" by simp
  then show ?thesis
    unfolding isWhiteSpace_nat by (auto simp: toLowerCase_char_def Let_def)
qed

lemma toLowerCase_idem: "toLowerCase (toLowerCase s) = toLowerCase s"
  by (simp add: toLowerCase_def toLowerCase_char_idem)

lemma trim_toLowerCase: "trim (toLowerCase s) = toLowerCase (trim s)"
proof -
  have eq: "isWhiteSpace \<circ> toLowerCase_char = isWhiteSpace"
    by (rule ext) (simp add: isWhiteSpace_toLowerCase_char)
  show ?thesis
    by (simp add: trim_def toLowerCase_def dropWhile_map rev_map eq)
qed

lemma last_dropWhile_nonempty: "dropWhile P xs \<noteq> [] \<Longrightarrow> last (dropWhile P xs) = last xs"
  by (induction xs) (auto split: if_splits)

lemma trimmed_trim: "trimmed (trim s)"
proof (cases "dropWhile isWhiteSpace s = []")
  case True
  have "trim s = []" unfolding trim_def True by simp
  then show ?thesis by (simp add: trimmed_def)
next
  case False
  let ?d = "dropWhile isWhiteSpace s"
  let ?r = "dropWhile isWhiteSpace (rev ?d)"
  from False have hd_d: "\<not> isWhiteSpace (hd ?d)" by (rule hd_dropWhile)
  from False have "hd ?d \<in> set (rev ?d)" by simp
  with hd_d have r_ne: "?r \<noteq> []" by (auto simp: dropWhile_eq_Nil_conv simp del: set_rev)
  then have hd_r: "\<not> isWhiteSpace (hd ?r)" by (rule hd_dropWhile)
  from r_ne have "last ?r = last (rev ?d)" by (rule last_dropWhile_nonempty)
  with False have last_r: "last ?r = hd ?d" by (simp add: last_rev)
  from r_ne hd_r last_r hd_d show ?thesis
    by (simp add: trim_def trimmed_def hd_rev last_rev)
qed

lemma trim_trimmed:
  assumes "trimmed t"
  shows "trim t = t"
proof (cases "t = []")
  case True
  then show ?thesis by (simp add: trim_def)
next
  case False
  with assms have h: "\<not> isWhiteSpace (hd t)" and l: "\<not> isWhiteSpace (last t)"
    by (simp_all add: trimmed_def)
  from h have d1: "dropWhile isWhiteSpace t = t"
    by (simp add: dropWhile_eq_self_iff)
  from False l have "\<not> isWhiteSpace (hd (rev t))" by (simp add: hd_rev)
  then have d2: "dropWhile isWhiteSpace (rev t) = rev t"
    by (simp add: dropWhile_eq_self_iff)
  show ?thesis unfolding trim_def d1 d2 by simp
qed

lemma trim_idem: "trim (trim s) = trim s"
  by (rule trim_trimmed) (rule trimmed_trim)

lemma tag_normal:
  "trim (toLowerCase (trim p)) = toLowerCase (trim p) \<and>
   toLowerCase (toLowerCase (trim p)) = toLowerCase (trim p)"
  by (simp add: trim_toLowerCase trim_idem toLowerCase_idem)

section \<open>The rewriter and the tag generator\<close>

text \<open>
  Claim C5.  Whenever \<open>processWithAI\<close> returns a rewritten article (a title was parsed from
  the model's response), the title of the result has at most 200 characters, whatever the
  length of the model's output.
\<close>

theorem title_at_most_200:
  "fst (processWithAI env a categoryName s) = Inr (Some r) \<Longrightarrow> length (pa_title r) \<le> 200"
  by (auto simp: processWithAI_def parse_response_def Let_def length_substring_le
           split: sum.splits option.splits)

text \<open>A response whose title line has 210 characters: the title of the result is its first
  200 characters.\<close>

theorem title_at_most_200_witness:
  "fst (processWithAI (env_reply long_title_text) art_ok ''Technology'' st_admin)
     = Inr (Some long_title_result)
   \<and> length (pa_title long_title_result) \<le> 200
   \<and> length (pa_title long_title_result) = 200
   \<and> 200 < length long_title_text"
proof -
  have h: "fst (processWithAI (env_reply long_title_text) art_ok ''Technology'' st_admin)
             = Inr (Some long_title_result)"
    by code_simp
  from title_at_most_200 [OF h] h show ?thesis
    by (simp add: long_title_text_def long_title_result_def)
qed

text \<open>
  Claim C8.  For every content, \<open>generateTags\<close> does not throw; every tag it returns is a
  non-empty string of at most 20 characters that is trimmed and lower-cased (\<open>trim\<close> and
  \<open>toLowerCase\<close> leave it unchanged); and when the model call fails, the result is the
  empty list.
\<close>

theorem generateTags_tags:
  "\<exists>tags. fst (generateTags env content s) = Inr tags
      \<and> (\<forall>t \<in> set tags. 0 < length t \<and> length t \<le> 20 \<and> trim t = t \<and> toLowerCase t = t)
      \<and> ((\<exists>e. generateContent env (length (trace s)) (tags_prompt content) = Inl e)
           \<longrightarrow> tags = [])"
  by (auto simp: generateTags_def Let_def tag_normal split: sum.splits)

text \<open>The response \<open>" News, , AI ,averyveryverylongtagmorethantwenty "\<close> gives the tags
  \<open>news\<close> and \<open>ai\<close>; a failing model call gives no tags.\<close>

theorem generateTags_tags_witness:
  "fst (generateTags (env_reply tags_text) ''body'' st_admin) = Inr [''news'', ''ai'']
   \<and> 0 < length ''news'' \<and> length ''news'' \<le> 20
   \<and> trim ''news'' = ''news'' \<and> toLowerCase ''news'' = ''news''
   \<and> 0 < length ''ai'' \<and> length ''ai'' \<le> 20
   \<and> trim ''ai'' = ''ai'' \<and> toLowerCase ''ai'' = ''ai''
   \<and> generateContent env_model_down (length (trace st_admin)) (tags_prompt ''body'')
       = Inl (Error ''model unavailable'')
   \<and> fst (generateTags env_model_down ''body'' st_admin) = Inr []"
proof -
  have h1: "fst (generateTags (env_reply tags_text) ''body'' st_admin) = Inr [''news'', ''ai'']"
    by code_simp
  have h2: "generateContent env_model_down (length (trace st_admin)) (tags_prompt ''body'')
              = Inl (Error ''model unavailable'')"
    by (simp add: env_model_down_def)
  from generateTags_tags [of "env_reply tags_text" "''body''" st_admin] h1
  have a: "\<forall>t \<in> set [''news'', ''ai''].
             0 < length t \<and> length t \<le> 20 \<and> trim t = t \<and> toLowerCase t = t"
    by auto
  from generateTags_tags [of env_model_down "''body''" st_admin] h2
  have b: "fst (generateTags env_model_down ''body'' st_admin) = Inr []"
    by auto
  from a have "0 < length ''news'' \<and> length ''news'' \<le> 20
      \<and> trim ''news'' = ''news'' \<and> toLowerCase ''news'' = ''news''
      \<and> 0 < length ''ai'' \<and> length ''ai'' \<le> 20
      \<and> trim ''ai'' = ''ai'' \<and> toLowerCase ''ai'' = ''ai''"
    by (simp del: length_greater_0_conv)
  with h1 h2 b show ?thesis by blast
qed

section \<open>Effects of the operations on the state\<close>

lemma log_event_simps [simp]:
  "posts (log_event ev s) = posts s"
  "users (log_event ev s) = users s"
  "categories (log_event ev s) = categories s"
  "count (log_event ev s) = count s"
  "trace (log_event ev s) = trace s @ [ev]"
  by (simp_all add: log_event_def)

lemma inc_failed_simps [simp]:
  "posts (inc_failed s) = posts s"
  "users (inc_failed s) = users s"
  "categories (inc_failed s) = categories s"
  "trace (inc_failed s) = trace s"
  "failed (count (inc_failed s)) = failed (count s) + 1"
  "success (count (inc_failed s)) = success (count s)"
  by (simp_all add: inc_failed_def)

lemma inc_success_simps [simp]:
  "posts (inc_success s) = posts s"
  "users (inc_success s) = users s"
  "categories (inc_success s) = categories s"
  "trace (inc_success s) = trace s"
  "failed (count (inc_success s)) = failed (count s)"
  "success (count (inc_success s)) = success (count s) + 1"
  by (simp_all add: inc_success_def)

lemma Post_findOne_result:
  "Post_findOne env u s = (r, s1) \<Longrightarrow>
     s1 = log_event (PostFindOne u) s \<and> (r = Inr None \<longrightarrow> \<not> stored u s)
     \<and> (stored u s \<longrightarrow> r \<noteq> Inr None)"
  by (auto simp: Post_findOne_def stored_def find_None_iff split: option.splits)

lemma processWithAI_result:
  "processWithAI env a c s = (r, s') \<Longrightarrow>
     s' = log_event (GenerateContent (rewrite_prompt a c)) s \<and>
     (\<forall>pa. r = Inr (Some pa) \<longrightarrow> pa_image pa = a_urlToImage a \<and> pa_originalUrl pa = a_url a)"
  by (auto simp: processWithAI_def parse_response_def Let_def split: sum.splits option.splits)

lemma save_result:
  "save env p s = (r, s') \<Longrightarrow>
     trace s' = trace s @ [PostSave p] \<and> count s' = count s \<and> users s' = users s
     \<and> categories s' = categories s
     \<and> (case r of Inl e \<Rightarrow> posts s' = posts s | Inr q \<Rightarrow> q = p \<and> posts s' = posts s @ [q])"
  by (auto simp: save_def split: option.splits)

lemma createNewsPost_result:
  "createNewsPost env pa cid uid a s = (r, s') \<Longrightarrow>
     (\<exists>p. trace s' = trace s @ [PostSave p]) \<and> count s' = count s \<and> users s' = users s
     \<and> categories s' = categories s
     \<and> (case r of
           Inl e \<Rightarrow> posts s' = posts s
         | Inr p \<Rightarrow> posts s' = posts s @ [p] \<and> p_isNews p \<and> p_originalSource p = Some (a_url a)
                   \<and> p_type p = (if js_truthy (pa_image pa) then TypeImage else TypeNews)
                   \<and> p_image p = pa_image pa)"
  unfolding createNewsPost_def Let_def
  by (auto split: prod.splits sum.splits dest!: save_result)

lemma processArticle_posts:
  "\<exists>new. posts (processArticle env cn cid uid a s) = posts s @ new
      \<and> (\<forall>p \<in> set new. p_isNews p \<and> p_originalSource p = Some (a_url a)
            \<and> \<not> stored (a_url a) s
            \<and> p_type p = (if js_truthy (a_urlToImage a) then TypeImage else TypeNews)
            \<and> p_image p = a_urlToImage a)"
  unfolding processArticle_def
  by (auto split: prod.splits sum.splits option.splits
           dest!: Post_findOne_result processWithAI_result createNewsPost_result)


lemma stored_simps [simp]:
  "stored u (log_event ev s) = stored u s"
  "stored u (inc_failed s) = stored u s"
  "stored u (inc_success s) = stored u s"
  "stored u (s\<lparr>count := c\<rparr>) = stored u s"
  by (simp_all add: stored_def)

lemma processArticle_dedup:
  assumes "stored u s"
  shows "filter (\<lambda>p. p_originalSource p = Some u) (posts (processArticle env cn cid uid a s))
           = filter (\<lambda>p. p_originalSource p = Some u) (posts s)
         \<and> stored u (processArticle env cn cid uid a s)"
proof -
  obtain new where new: "posts (processArticle env cn cid uid a s) = posts s @ new"
    and each: "\<forall>p \<in> set new. p_originalSource p = Some (a_url a) \<and> \<not> stored (a_url a) s"
    using processArticle_posts [of env cn cid uid a s] by blast
  have "filter (\<lambda>p. p_originalSource p = Some u) new = []"
  proof (cases "a_url a = u")
    case True
    with each assms have "new = []" by (cases new) auto
    then show ?thesis by simp
  next
    case False
    with each show ?thesis by (auto simp: filter_empty_conv)
  qed
  with new assms show ?thesis by (auto simp: stored_def)
qed

lemma processArticles_dedup:
  "stored u s \<Longrightarrow>
     filter (\<lambda>p. p_originalSource p = Some u) (posts (processArticles env cn cid uid as s))
       = filter (\<lambda>p. p_originalSource p = Some u) (posts s)
     \<and> stored u (processArticles env cn cid uid as s)"
proof (induction as arbitrary: s)
  case Nil
  then show ?case by simp
next
  case (Cons a as)
  from processArticle_dedup [OF Cons.prems, of env cn cid uid a]
  have step: "filter (\<lambda>p. p_originalSource p = Some u) (posts (processArticle env cn cid uid a s))
                = filter (\<lambda>p. p_originalSource p = Some u) (posts s)"
    and st: "stored u (processArticle env cn cid uid a s)" by simp_all
  from Cons.IH [OF st] step show ?case by simp
qed

lemma Category_findOne_state:
  "Category_findOne env name s = (r, s1) \<Longrightarrow> s1 = log_event (CategoryFindOne name) s"
  by (auto simp: Category_findOne_def split: option.splits)

lemma processCategoryNews_dedup:
  assumes "stored u s"
  shows "filter (\<lambda>p. p_originalSource p = Some u) (posts (snd (processCategoryNews env c uid s)))
           = filter (\<lambda>p. p_originalSource p = Some u) (posts s)
         \<and> stored u (snd (processCategoryNews env c uid s))"
  using assms unfolding processCategoryNews_def Let_def
  by (auto split: prod.splits sum.splits option.splits list.splits
           dest!: Category_findOne_state simp: processArticles_dedup
           simp del: processArticles.simps)

lemma forCategories_dedup:
  "stored u s \<Longrightarrow>
     filter (\<lambda>p. p_originalSource p = Some u) (posts (forCategories env uid cs s))
       = filter (\<lambda>p. p_originalSource p = Some u) (posts s)
     \<and> stored u (forCategories env uid cs s)"
proof (induction cs arbitrary: s)
  case Nil
  then show ?case by simp
next
  case (Cons c cs)
  obtain r s1 where r: "processCategoryNews env c uid s = (r, s1)" by (cases "processCategoryNews env c uid s")
  from processCategoryNews_dedup [OF Cons.prems, of env c uid] r
  have step: "filter (\<lambda>p. p_originalSource p = Some u) (posts s1)
                = filter (\<lambda>p. p_originalSource p = Some u) (posts s)"
    and st: "stored u s1" by simp_all
  show ?case
  proof (cases r)
    case (Inl e)
    from st have "stored u (inc_failed s1)" by simp
    from Cons.IH [OF this] r Inl step show ?thesis by simp
  next
    case (Inr x)
    from st have "stored u (log_event (Delay 2000) s1)" by simp
    from Cons.IH [OF this] r Inr step show ?thesis by simp
  qed
qed

lemma User_findOne_state:
  "User_findOne env s = (r, s1) \<Longrightarrow> s1 = log_event UserFindOne s"
  by (auto simp: User_findOne_def split: option.splits)

lemma find_SomeD: "find P xs = Some x \<Longrightarrow> x \<in> set xs \<and> P x"
  by (induction xs) (auto split: if_splits)

lemma processArticle_made:
  "\<exists>new. posts (processArticle env cn cid uid a s) = posts s @ new \<and> list_all pipeline_made new"
  using processArticle_posts [of env cn cid uid a s]
  by (auto simp: list_all_iff pipeline_made_def)

lemma processArticles_made:
  "\<exists>new. posts (processArticles env cn cid uid as s) = posts s @ new \<and> list_all pipeline_made new"
proof (induction as arbitrary: s)
  case Nil
  then show ?case by simp
next
  case (Cons a as)
  obtain n1 where n1: "posts (processArticle env cn cid uid a s) = posts s @ n1"
    "list_all pipeline_made n1"
    using processArticle_made [of env cn cid uid a s] by blast
  obtain n2 where n2: "posts (processArticles env cn cid uid as (processArticle env cn cid uid a s))
      = posts (processArticle env cn cid uid a s) @ n2" "list_all pipeline_made n2"
    using Cons.IH [of "processArticle env cn cid uid a s"] by blast
  from n1 n2 have "posts (processArticles env cn cid uid (a # as) s) = posts s @ (n1 @ n2)
      \<and> list_all pipeline_made (n1 @ n2)" by simp
  then show ?case by blast
qed

lemma processCategoryNews_made:
  "\<exists>new. posts (snd (processCategoryNews env c uid s)) = posts s @ new
      \<and> list_all pipeline_made new"
proof -
  have key: "\<exists>new. posts (processArticles env cn cid uid as s0) = posts s @ new
                \<and> list_all pipeline_made new" if "posts s0 = posts s" for cn cid as s0
    using processArticles_made [of env cn cid uid as s0] that by simp
  show ?thesis
    unfolding processCategoryNews_def Let_def
    by (auto split: prod.splits sum.splits option.splits list.splits
             dest!: Category_findOne_state intro!: key
             simp del: processArticles.simps)
qed

lemma forCategories_made:
  "\<exists>new. posts (forCategories env uid cs s) = posts s @ new \<and> list_all pipeline_made new"
proof (induction cs arbitrary: s)
  case Nil
  then show ?case by simp
next
  case (Cons c cs)
  obtain r s1 where r: "processCategoryNews env c uid s = (r, s1)"
    by (cases "processCategoryNews env c uid s")
  obtain n1 where n1: "posts s1 = posts s @ n1" "list_all pipeline_made n1"
    using processCategoryNews_made [of env c uid s] r by auto
  let ?s2 = "case r of Inl e \<Rightarrow> inc_failed s1 | Inr u \<Rightarrow> log_event (Delay 2000) s1"
  have p2: "posts ?s2 = posts s1" by (cases r) simp_all
  obtain n2 where n2: "posts (forCategories env uid cs ?s2) = posts ?s2 @ n2"
    "list_all pipeline_made n2"
    using Cons.IH [of ?s2] by blast
  have "forCategories env uid (c # cs) s = forCategories env uid cs ?s2"
    using r by (cases r) simp_all
  with n1 n2 p2 have "posts (forCategories env uid (c # cs) s) = posts s @ (n1 @ n2)
      \<and> list_all pipeline_made (n1 @ n2)" by simp
  then show ?case by blast
qed

lemma fetchAndProcessNews_made:
  "\<exists>new. posts (snd (fetchAndProcessNews env s)) = posts s @ new \<and> list_all pipeline_made new"
proof -
  obtain r s1 where r: "User_findOne env s = (r, s1)" by (cases "User_findOne env s")
  then have s1: "s1 = log_event UserFindOne s" by (rule User_findOne_state)
  show ?thesis
  proof (cases r)
    case (Inl e)
    with r s1 show ?thesis by (simp add: fetchAndProcessNews_def)
  next
    case (Inr found)
    show ?thesis
    proof (cases found)
      case None
      with r s1 Inr show ?thesis by (simp add: fetchAndProcessNews_def)
    next
      case (Some adminUser)
      from forCategories_made [of env "u_id adminUser" service_categories
             "s1\<lparr>count := \<lparr>success = 0, failed = 0\<rparr>\<rparr>"]
      show ?thesis using r Inr Some s1 by (simp add: fetchAndProcessNews_def Let_def)
    qed
  qed
qed

section \<open>Markers and patterns\<close>

lemma starts_with_append:
  assumes "starts_with (m @ x) s"
  shows "starts_with m s"
proof -
  from assms have "take (length m + length x) s = m @ x" by (simp add: starts_with_def)
  then have "take (length m) (take (length m + length x) s) = take (length m) (m @ x)" by simp
  then show ?thesis by (simp add: starts_with_def)
qed

lemma match_line_includes: "match_line (m @ x) resp = Some g \<Longrightarrow> js_includes m resp"
proof (induction resp)
  case Nil
  then show ?case by simp
next
  case (Cons c cs)
  show ?case
  proof (cases "starts_with (m @ x) (c # cs)")
    case True
    then have "starts_with m (c # cs)" by (rule starts_with_append)
    then show ?thesis by simp
  next
    case False
    with Cons.prems have "match_line (m @ x) cs = Some g" by simp
    then have "js_includes m cs" by (rule Cons.IH)
    then show ?thesis by simp
  qed
qed

lemma match_SUMMARY_includes: "match_SUMMARY resp = Some g \<Longrightarrow> js_includes ''SUMMARY:'' resp"
proof (induction resp)
  case Nil
  then show ?case by simp
next
  case (Cons c cs)
  show ?case
  proof (cases "starts_with ''SUMMARY: '' (c # cs)")
    case True
    then have "starts_with (''SUMMARY:'' @ '' '') (c # cs)" by simp
    then have "starts_with ''SUMMARY:'' (c # cs)" by (rule starts_with_append)
    then show ?thesis by simp
  next
    case False
    with Cons.prems have "match_SUMMARY cs = Some g" by simp
    then have "js_includes ''SUMMARY:'' cs" by (rule Cons.IH)
    then show ?thesis by simp
  qed
qed

lemma absent_marker_no_parse:
  assumes "\<not> js_includes ''TITLE:'' resp \<or> \<not> js_includes ''SUMMARY:'' resp"
  shows "parse_response a resp = None"
proof -
  have t: "js_includes ''TITLE:'' resp" if "match_line ''TITLE: '' resp = Some g" for g
    using match_line_includes [of "''TITLE:''" "'' ''" resp g] that by simp
  from assms have "match_line ''TITLE: '' resp = None \<or> match_SUMMARY resp = None"
  proof
    assume "\<not> js_includes ''TITLE:'' resp"
    with t have "match_line ''TITLE: '' resp = None"
      by (cases "match_line ''TITLE: '' resp") auto
    then show ?thesis by simp
  next
    assume "\<not> js_includes ''SUMMARY:'' resp"
    with match_SUMMARY_includes [of resp] have "match_SUMMARY resp = None"
      by (cases "match_SUMMARY resp") auto
    then show ?thesis by simp
  qed
  then show ?thesis
    by (auto simp: parse_response_def Let_def split: option.splits)
qed

lemma trim_Nil: "trim [] = []"
  by (simp add: trim_def)

section \<open>Deduplication\<close>

text \<open>
  Claim C1.  If a post with \<open>isNews = true\<close> and \<open>originalSource = u\<close> is stored, then after
  a run of the pipeline, whatever the source, the model and the database answer (also when
  the source returns the article with the URL \<open>u\<close> again), the stored posts with the original
  source \<open>u\<close> are the same as before: no second one is created.  Such an article is skipped:
  when the lookup succeeds, processing it only adds the lookup to the log.
\<close>

theorem no_second_post:
  assumes "\<exists>p \<in> set (posts s). p_originalSource p = Some u \<and> p_isNews p"
  shows "filter (\<lambda>p. p_originalSource p = Some u) (posts (snd (fetchAndProcessNews env s)))
           = filter (\<lambda>p. p_originalSource p = Some u) (posts s)
         \<and> (a_url a = u \<and> db_error env (length (trace s)) = None
              \<longrightarrow> processArticle env categoryName categoryId adminUserId a s
                    = log_event (PostFindOne u) s)"
proof
  from assms have st: "stored u s" by (simp add: stored_def)
  obtain r s1 where r: "User_findOne env s = (r, s1)" by (cases "User_findOne env s")
  then have s1: "s1 = log_event UserFindOne s" by (rule User_findOne_state)
  show "filter (\<lambda>p. p_originalSource p = Some u) (posts (snd (fetchAndProcessNews env s)))
           = filter (\<lambda>p. p_originalSource p = Some u) (posts s)"
  proof (cases r)
    case (Inl e)
    with r s1 show ?thesis by (simp add: fetchAndProcessNews_def)
  next
    case (Inr found)
    show ?thesis
    proof (cases found)
      case None
      with r s1 Inr show ?thesis by (simp add: fetchAndProcessNews_def)
    next
      case (Some adminUser)
      from st have "stored u (s1\<lparr>count := \<lparr>success = 0, failed = 0\<rparr>\<rparr>)" by (simp add: s1)
      from forCategories_dedup [OF this, of env "u_id adminUser" service_categories]
      show ?thesis using r Inr Some s1 by (simp add: fetchAndProcessNews_def Let_def)
    qed
  qed
next
  from assms
  show "a_url a = u \<and> db_error env (length (trace s)) = None
          \<longrightarrow> processArticle env categoryName categoryId adminUserId a s
                = log_event (PostFindOne u) s"
    unfolding processArticle_def Post_findOne_def
    by (auto simp: find_None_iff split: option.splits)
qed

text \<open>A run on a database that holds a news post for the URL of \<open>art_ok\<close>, with a source
  that returns \<open>art_ok\<close> again: nothing succeeds, nothing fails, and the stored post stays the
  only one.\<close>

theorem no_second_post_witness:
  "(\<exists>p \<in> set (posts st_dup). p_originalSource p = Some ''https://news.example/a1'' \<and> p_isNews p)
   \<and> a_url art_ok = ''https://news.example/a1''
   \<and> newsApi_everything (env_reply good_text) 2 ''technology OR tech OR ai OR software OR internet''
       = Inr \<lparr> r_articles = Some [art_ok] \<rparr>
   \<and> filter (\<lambda>p. p_originalSource p = Some ''https://news.example/a1'')
        (posts (snd (fetchAndProcessNews (env_reply good_text) st_dup)))
       = [stored_post]
   \<and> fst (fetchAndProcessNews (env_reply good_text) st_dup) = Inr \<lparr> success = 0, failed = 0 \<rparr>"
proof -
  have h: "\<exists>p \<in> set (posts st_dup). p_originalSource p = Some ''https://news.example/a1'' \<and> p_isNews p"
    by (simp add: st_dup_def stored_post_def)
  have u: "a_url art_ok = ''https://news.example/a1''"
    by (simp add: art_ok_def)
  have n: "newsApi_everything (env_reply good_text) 2
             ''technology OR tech OR ai OR software OR internet''
           = Inr \<lparr> r_articles = Some [art_ok] \<rparr>"
    by (simp add: env_reply_def)
  have f: "filter (\<lambda>p. p_originalSource p = Some ''https://news.example/a1'') (posts st_dup)
             = [stored_post]"
    by (simp add: st_dup_def stored_post_def)
  have c: "fst (fetchAndProcessNews (env_reply good_text) st_dup)
             = Inr \<lparr> success = 0, failed = 0 \<rparr>"
    by code_simp
  from no_second_post [OF h, of "env_reply good_text"] f
  have "filter (\<lambda>p. p_originalSource p = Some ''https://news.example/a1'')
          (posts (snd (fetchAndProcessNews (env_reply good_text) st_dup))) = [stored_post]"
    by simp
  with h u n c show ?thesis by blast
qed

section \<open>The admin user\<close>

text \<open>
  Claim C3, as amended.  If no user has the role \<open>admin\<close> and the lookup of the admin user
  itself succeeds, \<open>fetchAndProcessNews\<close> rejects with \<open>Admin user not found\<close> after that
  lookup alone: no topic is processed, no external call is made, no post is created.  If
  the lookup of the admin user rejects, its error reaches the caller in the same way, after
  that lookup alone.  These are the only two errors that reach the caller: when the lookup
  finds an admin user, the invocation returns its \<open>processedCount\<close>, whatever the source,
  the model and the database answer afterwards.
\<close>

theorem admin_absent_aborts:
  "(db_error env (length (trace s)) = None \<and> (\<forall>u \<in> set (users s). u_role u \<noteq> ''admin'')
      \<longrightarrow> fetchAndProcessNews env s
            = (Inl (Error ''Admin user not found''), log_event UserFindOne s))
   \<and> (db_error env (length (trace s)) = Some e
      \<longrightarrow> fetchAndProcessNews env s = (Inl e, log_event UserFindOne s))
   \<and> (db_error env (length (trace s)) = None \<and> (\<exists>u \<in> set (users s). u_role u = ''admin'')
      \<longrightarrow> fst (fetchAndProcessNews env s) = Inr (count (snd (fetchAndProcessNews env s))))
   \<and> (\<forall>e'. fst (fetchAndProcessNews env s) = Inl e'
          \<longrightarrow> db_error env (length (trace s)) = Some e'
              \<or> (e' = Error ''Admin user not found''
                  \<and> db_error env (length (trace s)) = None
                  \<and> (\<forall>u \<in> set (users s). u_role u \<noteq> ''admin'')))"
proof (intro conjI)
  show "db_error env (length (trace s)) = None \<and> (\<forall>u \<in> set (users s). u_role u \<noteq> ''admin'')
      \<longrightarrow> fetchAndProcessNews env s
            = (Inl (Error ''Admin user not found''), log_event UserFindOne s)"
    by (auto simp: fetchAndProcessNews_def User_findOne_def find_None_iff
             split: option.splits dest: find_SomeD)
next
  show "db_error env (length (trace s)) = Some e
      \<longrightarrow> fetchAndProcessNews env s = (Inl e, log_event UserFindOne s)"
    by (simp add: fetchAndProcessNews_def User_findOne_def)
next
  show "db_error env (length (trace s)) = None \<and> (\<exists>u \<in> set (users s). u_role u = ''admin'')
      \<longrightarrow> fst (fetchAndProcessNews env s) = Inr (count (snd (fetchAndProcessNews env s)))"
    by (auto simp: fetchAndProcessNews_def User_findOne_def Let_def find_None_iff
             split: option.splits)
next
  show "\<forall>e'. fst (fetchAndProcessNews env s) = Inl e'
          \<longrightarrow> db_error env (length (trace s)) = Some e'
              \<or> (e' = Error ''Admin user not found''
                  \<and> db_error env (length (trace s)) = None
                  \<and> (\<forall>u \<in> set (users s). u_role u \<noteq> ''admin''))"
    by (auto simp: fetchAndProcessNews_def User_findOne_def Let_def find_None_iff
             split: option.splits dest: find_SomeD)
qed

text \<open>A run on a database without an admin user; a database that rejects every operation;
  and a run with an admin user, which returns its counters.\<close>

theorem admin_absent_aborts_witness:
  "db_error (env_reply good_text) (length (trace st_no_admin)) = None
   \<and> map u_role (users st_no_admin) = [''user'']
   \<and> fst (fetchAndProcessNews (env_reply good_text) st_no_admin)
       = Inl (Error ''Admin user not found'')
   \<and> trace (snd (fetchAndProcessNews (env_reply good_text) st_no_admin)) = [UserFindOne]
   \<and> posts (snd (fetchAndProcessNews (env_reply good_text) st_no_admin)) = []
   \<and> db_error env_db_down (length (trace st_no_admin)) = Some (Error ''connection lost'')
   \<and> fst (fetchAndProcessNews env_db_down st_no_admin) = Inl (Error ''connection lost'')
   \<and> trace (snd (fetchAndProcessNews env_db_down st_no_admin)) = [UserFindOne]
   \<and> db_error env_no_articles (length (trace st_admin)) = None
   \<and> map u_role (users st_admin) = [''admin'']
   \<and> fst (fetchAndProcessNews env_no_articles st_admin)
       = Inr (count (snd (fetchAndProcessNews env_no_articles st_admin)))"
proof -
  have h1: "db_error (env_reply good_text) (length (trace st_no_admin)) = None"
    by (simp add: env_reply_def)
  have h2: "map u_role (users st_no_admin) = [''user'']"
    by (simp add: st_no_admin_def st_admin_def)
  then have h3: "\<forall>u \<in> set (users st_no_admin). u_role u \<noteq> ''admin''"
    by (simp add: st_no_admin_def st_admin_def)
  from admin_absent_aborts [of "env_reply good_text" st_no_admin] h1 h3
  have a: "fetchAndProcessNews (env_reply good_text) st_no_admin
          = (Inl (Error ''Admin user not found''), log_event UserFindOne st_no_admin)"
    by blast
  have d1: "db_error env_db_down (length (trace st_no_admin)) = Some (Error ''connection lost'')"
    by (simp add: env_db_down_def)
  from admin_absent_aborts [of env_db_down st_no_admin "Error ''connection lost''"] d1
  have b: "fetchAndProcessNews env_db_down st_no_admin
          = (Inl (Error ''connection lost''), log_event UserFindOne st_no_admin)"
    by blast
  have g1: "db_error env_no_articles (length (trace st_admin)) = None"
    by (simp add: env_no_articles_def env_source_def)
  have g2: "map u_role (users st_admin) = [''admin'']"
    by (simp add: st_admin_def)
  then have g3: "\<exists>u \<in> set (users st_admin). u_role u = ''admin''"
    by (simp add: st_admin_def)
  from admin_absent_aborts [of env_no_articles st_admin] g1 g3
  have c: "fst (fetchAndProcessNews env_no_articles st_admin)
             = Inr (count (snd (fetchAndProcessNews env_no_articles st_admin)))"
    by blast
  have a': "fst (fetchAndProcessNews (env_reply good_text) st_no_admin)
              = Inl (Error ''Admin user not found'')
            \<and> trace (snd (fetchAndProcessNews (env_reply good_text) st_no_admin)) = [UserFindOne]
            \<and> posts (snd (fetchAndProcessNews (env_reply good_text) st_no_admin)) = []"
    unfolding a by (simp add: st_no_admin_def st_admin_def)
  have b': "fst (fetchAndProcessNews env_db_down st_no_admin) = Inl (Error ''connection lost'')
            \<and> trace (snd (fetchAndProcessNews env_db_down st_no_admin)) = [UserFindOne]"
    unfolding b by (simp add: st_no_admin_def st_admin_def)
  from h1 h2 a' d1 b' g1 g2 c show ?thesis by blast
qed

text \<open>Claim C3 as stated fails: an admin user exists, the lookup of the admin user rejects,
  and this other error reaches the caller.\<close>

theorem admin_lookup_error_propagates:
  "u_role (hd (users st_admin)) = ''admin''
   \<and> fst (fetchAndProcessNews env_db_down st_admin) = Inl (Error ''connection lost'')
   \<and> Error ''connection lost'' \<noteq> Error ''Admin user not found''"
  by (simp add: fetchAndProcessNews_def User_findOne_def env_db_down_def st_admin_def)

section \<open>Responses without a marker\<close>

text \<open>
  Claim C4.  Let the model answer the prompt for an article that passed the duplicate check
  and the content check with a text in which \<open>TITLE:\<close> or \<open>SUMMARY:\<close> does not occur.  Then
  \<open>processWithAI\<close> returns \<open>null\<close>; processing the article calls \<open>save\<close> not at all (the log
  grows by the lookup and the model call only, the posts stay as they are), counts the
  article as failed, and the loop goes on with the next article.
\<close>

theorem missing_marker_fails:
  assumes absent: "\<not> js_includes ''TITLE:'' resp \<or> \<not> js_includes ''SUMMARY:'' resp"
    and fresh: "fst (Post_findOne env (a_url a) s) = Inr None"
    and content: "js_truthy (a_title a)" "js_truthy (a_description a)"
                 "a_title a \<noteq> Some ''[Removed]''"
    and answer: "generateContent env (Suc (length (trace s))) (rewrite_prompt a categoryName)
                  = Inr resp"
  shows "fst (processWithAI env a categoryName (log_event (PostFindOne (a_url a)) s)) = Inr None
       \<and> processArticle env categoryName categoryId adminUserId a s
           = inc_failed (log_event (GenerateContent (rewrite_prompt a categoryName))
                          (log_event (PostFindOne (a_url a)) s))
       \<and> posts (processArticle env categoryName categoryId adminUserId a s) = posts s
       \<and> trace (processArticle env categoryName categoryId adminUserId a s)
           = trace s @ [PostFindOne (a_url a), GenerateContent (rewrite_prompt a categoryName)]
       \<and> failed (count (processArticle env categoryName categoryId adminUserId a s))
           = failed (count s) + 1
       \<and> success (count (processArticle env categoryName categoryId adminUserId a s))
           = success (count s)
       \<and> processArticles env categoryName categoryId adminUserId (a # rest) s
           = processArticles env categoryName categoryId adminUserId rest
               (inc_failed (log_event (GenerateContent (rewrite_prompt a categoryName))
                             (log_event (PostFindOne (a_url a)) s)))"
proof -
  let ?s1 = "log_event (PostFindOne (a_url a)) s"
  let ?s2 = "log_event (GenerateContent (rewrite_prompt a categoryName)) ?s1"
  from fresh have f: "Post_findOne env (a_url a) s = (Inr None, ?s1)"
    by (cases "Post_findOne env (a_url a) s") (auto dest: Post_findOne_result)
  from absent have p: "parse_response a resp = None" by (rule absent_marker_no_parse)
  from answer p have ai: "processWithAI env a categoryName ?s1 = (Inr None, ?s2)"
    by (simp add: processWithAI_def Let_def)
  from f content ai have pa: "processArticle env categoryName categoryId adminUserId a s = inc_failed ?s2"
    by (simp add: processArticle_def)
  from ai pa show ?thesis by simp
qed

text \<open>The model answers without \<open>SUMMARY:\<close>.\<close>

theorem missing_marker_fails_witness:
  "\<not> js_includes ''SUMMARY:'' no_summary_text
   \<and> fst (Post_findOne (env_reply no_summary_text) (a_url art_ok) st_admin) = Inr None
   \<and> js_truthy (a_title art_ok) \<and> js_truthy (a_description art_ok)
   \<and> a_title art_ok \<noteq> Some ''[Removed]''
   \<and> generateContent (env_reply no_summary_text) (Suc (length (trace st_admin)))
        (rewrite_prompt art_ok ''Technology'') = Inr no_summary_text
   \<and> posts (processArticle (env_reply no_summary_text) ''Technology'' 7 1 art_ok st_admin) = []
   \<and> failed (count (processArticle (env_reply no_summary_text) ''Technology'' 7 1 art_ok st_admin))
       = 1
   \<and> success (count (processArticle (env_reply no_summary_text) ''Technology'' 7 1 art_ok st_admin))
       = 0"
proof -
  have h0: "\<not> js_includes ''SUMMARY:'' no_summary_text"
    by code_simp
  then have h1: "\<not> js_includes ''TITLE:'' no_summary_text
                 \<or> \<not> js_includes ''SUMMARY:'' no_summary_text"
    by simp
  have h2: "fst (Post_findOne (env_reply no_summary_text) (a_url art_ok) st_admin) = Inr None"
    by (simp add: Post_findOne_def env_reply_def st_admin_def)
  have h3: "js_truthy (a_title art_ok)" "js_truthy (a_description art_ok)"
    "a_title art_ok \<noteq> Some ''[Removed]''"
    by (simp_all add: art_ok_def)
  have h4: "generateContent (env_reply no_summary_text) (Suc (length (trace st_admin)))
              (rewrite_prompt art_ok ''Technology'') = Inr no_summary_text"
    by (simp add: env_reply_def)
  have e: "posts st_admin = []" "count st_admin = \<lparr> success = 0, failed = 0 \<rparr>"
    by (simp_all add: st_admin_def)
  from missing_marker_fails [OF h1 h2 h3 h4, of 7 1 "[]"] e
  have "posts (processArticle (env_reply no_summary_text) ''Technology'' 7 1 art_ok st_admin) = []
      \<and> failed (count (processArticle (env_reply no_summary_text) ''Technology'' 7 1 art_ok st_admin))
          = 1
      \<and> success (count (processArticle (env_reply no_summary_text) ''Technology'' 7 1 art_ok st_admin))
          = 0"
    by simp
  with h0 h2 h3 h4 show ?thesis by blast
qed

section \<open>The order of the two checks\<close>

text \<open>
  Claim C6, as amended.  For each returned article the pipeline first looks in the Post
  Store for a post with \<open>originalSource = article.url\<close> and \<open>isNews = true\<close>: the lookup
  is the first call of every iteration.  Only then it rejects articles with an empty or
  missing title, the title \<open>[Removed]\<close> or an empty or missing description.  When the lookup
  succeeds, an article that is already stored or that is rejected is skipped: nothing but
  the lookup is done, and nothing is counted.
\<close>

theorem dedup_check_precedes_content_check:
  "(\<exists>evs. trace (processArticle env categoryName categoryId adminUserId a s)
            = trace s @ PostFindOne (a_url a) # evs)
   \<and> (db_error env (length (trace s)) = None
        \<and> ((\<exists>p \<in> set (posts s). p_originalSource p = Some (a_url a) \<and> p_isNews p)
            \<or> \<not> js_truthy (a_title a) \<or> \<not> js_truthy (a_description a)
            \<or> a_title a = Some ''[Removed]'')
      \<longrightarrow> processArticle env categoryName categoryId adminUserId a s
            = log_event (PostFindOne (a_url a)) s)"
proof
  show "\<exists>evs. trace (processArticle env categoryName categoryId adminUserId a s)
            = trace s @ PostFindOne (a_url a) # evs"
    unfolding processArticle_def
    by (auto split: prod.splits sum.splits option.splits
           dest!: Post_findOne_result processWithAI_result createNewsPost_result)
next
  show "db_error env (length (trace s)) = None
        \<and> ((\<exists>p \<in> set (posts s). p_originalSource p = Some (a_url a) \<and> p_isNews p)
            \<or> \<not> js_truthy (a_title a) \<or> \<not> js_truthy (a_description a)
            \<or> a_title a = Some ''[Removed]'')
      \<longrightarrow> processArticle env categoryName categoryId adminUserId a s
            = log_event (PostFindOne (a_url a)) s"
    unfolding processArticle_def Post_findOne_def
    by (auto simp: find_None_iff split: option.splits)
qed

text \<open>The placeholder article on the empty store, and \<open>art_ok\<close> on the store that holds
  its post.\<close>

theorem dedup_check_precedes_content_check_witness:
  "db_error (env_reply good_text) (length (trace st_admin)) = None
   \<and> a_title art_removed = Some ''[Removed]''
   \<and> processArticle (env_reply good_text) ''Technology'' 7 1 art_removed st_admin
       = log_event (PostFindOne (a_url art_removed)) st_admin
   \<and> (\<exists>p \<in> set (posts st_dup). p_originalSource p = Some (a_url art_ok) \<and> p_isNews p)
   \<and> processArticle (env_reply good_text) ''Technology'' 7 1 art_ok st_dup
       = log_event (PostFindOne (a_url art_ok)) st_dup"
proof -
  have h1: "db_error (env_reply good_text) (length (trace st_admin)) = None"
    and h1': "db_error (env_reply good_text) (length (trace st_dup)) = None"
    by (simp_all add: env_reply_def)
  have h2: "a_title art_removed = Some ''[Removed]''"
    by (simp add: art_removed_def)
  have h3: "\<exists>p \<in> set (posts st_dup). p_originalSource p = Some (a_url art_ok) \<and> p_isNews p"
    by (simp add: st_dup_def stored_post_def art_ok_def)
  from dedup_check_precedes_content_check
         [of "env_reply good_text" "''Technology''" 7 1 art_removed st_admin] h1 h2
  have a: "processArticle (env_reply good_text) ''Technology'' 7 1 art_removed st_admin
             = log_event (PostFindOne (a_url art_removed)) st_admin"
    by blast
  from dedup_check_precedes_content_check
         [of "env_reply good_text" "''Technology''" 7 1 art_ok st_dup] h1' h3
  have b: "processArticle (env_reply good_text) ''Technology'' 7 1 art_ok st_dup
             = log_event (PostFindOne (a_url art_ok)) st_dup"
    by blast
  from h1 h2 h3 a b show ?thesis by blast
qed

text \<open>Claim C6 as stated fails: the Post Store is asked about an article with the
  placeholder title, and when that lookup rejects, the placeholder article is counted as
  failed.\<close>

theorem removed_article_is_looked_up:
  "a_title art_removed = Some ''[Removed]''
   \<and> trace (processArticle (env_reply good_text) ''Technology'' 7 1 art_removed st_admin)
       = [PostFindOne ''https://news.example/a1'']
   \<and> failed (count (processArticle env_db_down ''Technology'' 7 1 art_removed st_admin)) = 1"
  by (simp add: processArticle_def Post_findOne_def env_reply_def env_db_down_def
        st_admin_def art_removed_def art_ok_def)

section \<open>A source that is not available\<close>

text \<open>
  Claim C7, as amended.  For a topic whose category is found: when the call of the source
  throws, the error is caught in the loop over the topics, \<open>failed\<close> grows by one and the
  loop goes on with the next topic; when the source returns no articles (none, or an empty
  list), the topic is left without counting anything, and after the pause the loop goes on
  with the next topic.
\<close>

theorem source_unavailable:
  assumes cat: "fst (Category_findOne env (t_name c) s) = Inr (Some dbCategory)"
  shows "(newsApi_everything env (Suc (length (trace s))) (js_join '' OR '' (t_keywords c)) = Inl e
          \<longrightarrow> forCategories env adminUserId (c # rest) s
                = forCategories env adminUserId rest
                    (inc_failed (log_event (NewsApiEverything (js_join '' OR '' (t_keywords c)))
                                  (log_event (CategoryFindOne (t_name c)) s))))
       \<and> (newsApi_everything env (Suc (length (trace s))) (js_join '' OR '' (t_keywords c))
            = Inr response
          \<and> (r_articles response = None \<or> r_articles response = Some [])
          \<longrightarrow> forCategories env adminUserId (c # rest) s
                = forCategories env adminUserId rest
                    (log_event (Delay 2000)
                      (log_event (NewsApiEverything (js_join '' OR '' (t_keywords c)))
                        (log_event (CategoryFindOne (t_name c)) s))))"
proof -
  from cat have f: "Category_findOne env (t_name c) s
                      = (Inr (Some dbCategory), log_event (CategoryFindOne (t_name c)) s)"
    by (cases "Category_findOne env (t_name c) s") (auto dest: Category_findOne_state)
  show ?thesis
    by (auto simp: processCategoryNews_def f Let_def)
qed

text \<open>The topic Technology with a source that throws, and with a source that returns no
  articles.\<close>

theorem source_unavailable_witness:
  "fst (Category_findOne env_source_down (t_name topic_technology) st_admin)
     = Inr (Some \<lparr> c_id = 7, c_name = ''Technology'' \<rparr>)
   \<and> newsApi_everything env_source_down (Suc (length (trace st_admin)))
        (js_join '' OR '' (t_keywords topic_technology)) = Inl (Error ''rate limited'')
   \<and> count (forCategories env_source_down 1 [topic_technology] st_admin)
       = \<lparr> success = 0, failed = 1 \<rparr>
   \<and> fst (Category_findOne env_no_articles (t_name topic_technology) st_admin)
       = Inr (Some \<lparr> c_id = 7, c_name = ''Technology'' \<rparr>)
   \<and> newsApi_everything env_no_articles (Suc (length (trace st_admin)))
        (js_join '' OR '' (t_keywords topic_technology)) = Inr \<lparr> r_articles = Some [] \<rparr>
   \<and> count (forCategories env_no_articles 1 [topic_technology] st_admin)
       = \<lparr> success = 0, failed = 0 \<rparr>"
proof -
  have c1: "fst (Category_findOne env_source_down (t_name topic_technology) st_admin)
              = Inr (Some \<lparr> c_id = 7, c_name = ''Technology'' \<rparr>)"
    by (simp add: Category_findOne_def env_source_down_def env_source_def st_admin_def
          topic_technology_def)
  have n1: "newsApi_everything env_source_down (Suc (length (trace st_admin)))
              (js_join '' OR '' (t_keywords topic_technology)) = Inl (Error ''rate limited'')"
    by (simp add: env_source_down_def env_source_def)
  have c2: "fst (Category_findOne env_no_articles (t_name topic_technology) st_admin)
              = Inr (Some \<lparr> c_id = 7, c_name = ''Technology'' \<rparr>)"
    by (simp add: Category_findOne_def env_no_articles_def env_source_def st_admin_def
          topic_technology_def)
  have n2: "newsApi_everything env_no_articles (Suc (length (trace st_admin)))
              (js_join '' OR '' (t_keywords topic_technology)) = Inr \<lparr> r_articles = Some [] \<rparr>"
    by (simp add: env_no_articles_def env_source_def)
  have e: "count st_admin = \<lparr> success = 0, failed = 0 \<rparr>"
    by (simp add: st_admin_def)
  from source_unavailable [OF c1, of "Error ''rate limited''" 1 "[]"] n1 e
  have a: "count (forCategories env_source_down 1 [topic_technology] st_admin)
             = \<lparr> success = 0, failed = 1 \<rparr>"
    by (simp add: inc_failed_def)
  from source_unavailable [OF c2, of _ 1 "[]" "\<lparr> r_articles = Some [] \<rparr>"] n2 e
  have b: "count (forCategories env_no_articles 1 [topic_technology] st_admin)
             = \<lparr> success = 0, failed = 0 \<rparr>"
    by simp
  from c1 n1 a c2 n2 b show ?thesis by blast
qed

text \<open>Claim C7 as stated fails: the source is asked for the topic Technology and returns
  no articles, and the run reports no failure.\<close>

theorem zero_articles_not_failed:
  "NewsApiEverything ''technology OR tech OR ai OR software OR internet''
     \<in> set (trace (snd (fetchAndProcessNews env_no_articles st_admin)))
   \<and> fst (fetchAndProcessNews env_no_articles st_admin) = Inr \<lparr> success = 0, failed = 0 \<rparr>"
  by code_simp

section \<open>The type of the created posts\<close>

text \<open>
  Claim C9.  A post built by \<open>createNewsPost\<close> has the type \<open>image\<close> when the image of the
  rewritten article is a non-empty string and the type \<open>news\<close> otherwise; a post created
  for an article has the type \<open>image\<close> when the article's \<open>urlToImage\<close> is a non-empty
  string and \<open>news\<close> otherwise; and every post that a run of the pipeline adds has the type
  \<open>image\<close> or \<open>news\<close>, never \<open>text\<close> or \<open>link\<close>.
\<close>

theorem pipeline_post_type:
  "(fst (createNewsPost env processedArticle categoryId adminUserId a s) = Inr p
      \<longrightarrow> p_type p = (if js_truthy (pa_image processedArticle) then TypeImage else TypeNews))
   \<and> (\<exists>new. posts (processArticle env categoryName categoryId adminUserId a s) = posts s @ new
         \<and> (\<forall>q \<in> set new.
               p_type q = (if js_truthy (a_urlToImage a) then TypeImage else TypeNews)))
   \<and> (\<exists>new. posts (snd (fetchAndProcessNews env s)) = posts s @ new
         \<and> (\<forall>q \<in> set new.
               (p_type q = TypeImage \<or> p_type q = TypeNews)
               \<and> p_type q \<noteq> TypeText \<and> p_type q \<noteq> TypeLink
               \<and> (p_type q = TypeImage \<longleftrightarrow> js_truthy (p_image q))))"
proof (intro conjI)
  show "fst (createNewsPost env processedArticle categoryId adminUserId a s) = Inr p
      \<longrightarrow> p_type p = (if js_truthy (pa_image processedArticle) then TypeImage else TypeNews)"
    using createNewsPost_result [of env processedArticle categoryId adminUserId a s]
    by (cases "createNewsPost env processedArticle categoryId adminUserId a s") auto
next
  show "\<exists>new. posts (processArticle env categoryName categoryId adminUserId a s) = posts s @ new
         \<and> (\<forall>q \<in> set new.
               p_type q = (if js_truthy (a_urlToImage a) then TypeImage else TypeNews))"
    using processArticle_posts [of env categoryName categoryId adminUserId a s] by blast
next
  obtain new where "posts (snd (fetchAndProcessNews env s)) = posts s @ new"
    and "list_all pipeline_made new"
    using fetchAndProcessNews_made [of env s] by blast
  then show "\<exists>new. posts (snd (fetchAndProcessNews env s)) = posts s @ new
         \<and> (\<forall>q \<in> set new.
               (p_type q = TypeImage \<or> p_type q = TypeNews)
               \<and> p_type q \<noteq> TypeText \<and> p_type q \<noteq> TypeLink
               \<and> (p_type q = TypeImage \<longleftrightarrow> js_truthy (p_image q)))"
    by (auto simp: list_all_iff pipeline_made_def)
qed

text \<open>A run that creates one post from \<open>art_ok\<close>, which has an image; and the article
  without an image.\<close>

theorem pipeline_post_type_witness:
  "js_truthy (a_urlToImage art_ok)
   \<and> map p_type (posts (snd (fetchAndProcessNews (env_reply good_text) st_admin))) = [TypeImage]
   \<and> p_type (hd (posts (snd (fetchAndProcessNews (env_reply good_text) st_admin)))) \<noteq> TypeText
   \<and> p_type (hd (posts (snd (fetchAndProcessNews (env_reply good_text) st_admin)))) \<noteq> TypeLink
   \<and> \<not> js_truthy (a_urlToImage art_no_image)
   \<and> map p_type (posts (processArticle (env_reply good_text) ''Technology'' 7 1 art_no_image
                          st_admin)) = [TypeNews]"
proof -
  have i: "js_truthy (a_urlToImage art_ok)" "\<not> js_truthy (a_urlToImage art_no_image)"
    by (simp_all add: art_ok_def art_no_image_def)
  have e: "posts st_admin = []" by (simp add: st_admin_def)
  have r: "map p_type (posts (snd (fetchAndProcessNews (env_reply good_text) st_admin)))
             = [TypeImage]"
    by code_simp
  then have ne: "posts (snd (fetchAndProcessNews (env_reply good_text) st_admin)) \<noteq> []"
    by auto
  have n: "map p_type (posts (processArticle (env_reply good_text) ''Technology'' 7 1
                                art_no_image st_admin)) = [TypeNews]"
    by code_simp
  from pipeline_post_type [of "env_reply good_text" _ _ _ art_no_image st_admin _ "''Technology''"] e
  have "\<forall>q \<in> set (posts (snd (fetchAndProcessNews (env_reply good_text) st_admin))).
          p_type q \<noteq> TypeText \<and> p_type q \<noteq> TypeLink"
    by auto
  with ne
  have "p_type (hd (posts (snd (fetchAndProcessNews (env_reply good_text) st_admin)))) \<noteq> TypeText
      \<and> p_type (hd (posts (snd (fetchAndProcessNews (env_reply good_text) st_admin)))) \<noteq> TypeLink"
    by simp
  with i r n show ?thesis by blast
qed

section \<open>The tags of a rewritten article\<close>

text \<open>
  Claim C10, as amended.  Let the model answer with a text in which the title pattern
  matches (\<open>TITLE: \<close> followed on its line by at least one character) and the summary
  pattern matches (\<open>SUMMARY: \<close> followed by at least one character).  Then the rewrite
  succeeds.  Without a \<open>TAGS:\<close> marker the tag list is empty.  When the tags pattern matches,
  the tags are the comma-split, trimmed, lower-cased pieces of the rest of that line, one
  tag for each piece, with no filter for emptiness or length: an empty piece gives an
  empty tag.
\<close>

theorem tags_optional_unfiltered:
  assumes answer: "generateContent env (length (trace s)) (rewrite_prompt a categoryName) = Inr resp"
    and title: "match_line ''TITLE: '' resp = Some t"
    and summary: "match_SUMMARY resp = Some sm"
  shows "\<exists>r. fst (processWithAI env a categoryName s) = Inr (Some r)
           \<and> pa_tags r = (case match_line ''TAGS: '' resp of
                            None \<Rightarrow> []
                          | Some line \<Rightarrow> map (\<lambda>tag. toLowerCase (trim tag)) (js_split CHR '','' line))
           \<and> (\<not> js_includes ''TAGS:'' resp \<longrightarrow> pa_tags r = [])
           \<and> (\<forall>line. match_line ''TAGS: '' resp = Some line
                 \<longrightarrow> length (pa_tags r) = length (js_split CHR '','' line)
                     \<and> ([] \<in> set (js_split CHR '','' line) \<longrightarrow> [] \<in> set (pa_tags r)))"
proof -
  have no_tags: "match_line ''TAGS: '' resp = None" if "\<not> js_includes ''TAGS:'' resp"
    using match_line_includes [of "''TAGS:''" "'' ''" resp] that
    by (cases "match_line ''TAGS: '' resp") auto
  have empty: "[] \<in> set (map (\<lambda>tag. toLowerCase (trim tag)) pieces)" if "[] \<in> set pieces"
    for pieces
    using that by (force simp: trim_Nil toLowerCase_def image_iff)
  from answer title summary no_tags empty show ?thesis
    by (auto simp: processWithAI_def parse_response_def Let_def split: option.splits)
qed

text \<open>A response with the tags line \<open>Tech, ,Chips\<close> gives an empty tag; a response
  without \<open>TAGS:\<close> gives no tags.\<close>

theorem tags_optional_unfiltered_witness:
  "generateContent (env_reply good_text) (length (trace st_admin))
     (rewrite_prompt art_ok ''Technology'') = Inr good_text
   \<and> match_line ''TITLE: '' good_text = Some ''New chip announced''
   \<and> match_SUMMARY good_text = Some ''A chip maker presented a processor.\<newline>''
   \<and> match_line ''TAGS: '' good_text = Some ''Tech, ,Chips''
   \<and> (\<exists>r. fst (processWithAI (env_reply good_text) art_ok ''Technology'' st_admin) = Inr (Some r)
          \<and> pa_tags r = [''tech'', [], ''chips''])
   \<and> \<not> js_includes ''TAGS:'' no_tags_text
   \<and> (\<exists>r. fst (processWithAI (env_reply no_tags_text) art_ok ''Technology'' st_admin)
            = Inr (Some r)
          \<and> pa_tags r = [])"
proof -
  have g: "generateContent (env_reply good_text) (length (trace st_admin))
             (rewrite_prompt art_ok ''Technology'') = Inr good_text"
    by (simp add: env_reply_def)
  have t: "match_line ''TITLE: '' good_text = Some ''New chip announced''" by code_simp
  have sm: "match_SUMMARY good_text = Some ''A chip maker presented a processor.\<newline>''"
    by code_simp
  have tg: "match_line ''TAGS: '' good_text = Some ''Tech, ,Chips''" by code_simp
  have pieces: "map (\<lambda>tag. toLowerCase (trim tag)) (js_split CHR '','' ''Tech, ,Chips'')
                  = [''tech'', [], ''chips'']"
    by code_simp
  from tags_optional_unfiltered [OF g t sm] tg pieces
  have a: "\<exists>r. fst (processWithAI (env_reply good_text) art_ok ''Technology'' st_admin)
                  = Inr (Some r)
              \<and> pa_tags r = [''tech'', [], ''chips'']"
    by auto
  have g': "generateContent (env_reply no_tags_text) (length (trace st_admin))
              (rewrite_prompt art_ok ''Technology'') = Inr no_tags_text"
    by (simp add: env_reply_def)
  have t': "match_line ''TITLE: '' no_tags_text = Some ''New chip announced''" by code_simp
  have sm': "match_SUMMARY no_tags_text = Some ''A chip maker presented a processor.''"
    by code_simp
  have nt: "\<not> js_includes ''TAGS:'' no_tags_text" by code_simp
  from tags_optional_unfiltered [OF g' t' sm'] nt
  have b: "\<exists>r. fst (processWithAI (env_reply no_tags_text) art_ok ''Technology'' st_admin)
                  = Inr (Some r)
              \<and> pa_tags r = []"
    by auto
  from g t sm tg a nt b show ?thesis by blast
qed

text \<open>Claim C10 as stated fails: the response contains \<open>TITLE:\<close> and \<open>SUMMARY:\<close> and no
  \<open>TAGS:\<close>, but nothing follows \<open>TITLE: \<close> on its line, and the rewrite returns \<open>null\<close>.\<close>

theorem blank_title_not_rewritten:
  "js_includes ''TITLE:'' blank_title_text
   \<and> js_includes ''SUMMARY:'' blank_title_text
   \<and> \<not> js_includes ''TAGS:'' blank_title_text
   \<and> fst (processWithAI (env_reply blank_title_text) art_ok ''Technology'' st_admin) = Inr None"
  by code_simp

end
